theory Spec2Isabelle
  imports Main
begin

section \<open>Data model (schemas.py and the request models of main.py)\<close>

text \<open>
  The two \<open>Literal\<close> types of the schemas are datatypes; Python's unbounded \<open>int\<close> is
  \<open>int\<close>. An exception leaving a handler is a value of \<open>error\<close>: the handlers raise
  \<open>HTTPException(status_code, detail)\<close> themselves, and the constructors of the
  pydantic models \<open>Match\<close> and \<open>HitEvent\<close> raise \<open>ValidationError\<close> when a
  \<open>Field\<close> constraint fails.
\<close>

datatype team = A | B

datatype status = ongoing | finished

datatype error = HTTPException nat string | ValidationError

record CreateMatchRequest =
  team_a :: string
  team_b :: string
  cups_per_side :: int

record HitPayload =
  team :: team
  shooter :: "string option"
  cups :: int

record HitResponse =
  ok :: bool
  status :: status
  winner :: "team option"

record HitEvent =
  team :: team
  shooter :: "string option"
  cups :: int
  timestamp :: int

record Match =
  team_a :: string
  team_b :: string
  cups_per_side :: int
  cups_remaining_a :: int
  cups_remaining_b :: int
  status :: status
  winner :: "team option"
  events :: "HitEvent list"

text \<open>
  The request models: a field left out of the request body takes the default of the class
  (\<open>cups_per_side: int = 10\<close>, \<open>shooter = None\<close>, \<open>cups: int = 1\<close>). Neither class
  declares a range, so every integer is accepted.
\<close>

definition CreateMatchRequest_init :: "string \<Rightarrow> string \<Rightarrow> int option \<Rightarrow> CreateMatchRequest" where
  "CreateMatchRequest_init ta tb cps =
     \<lparr>CreateMatchRequest.team_a = ta, CreateMatchRequest.team_b = tb,
      CreateMatchRequest.cups_per_side = (case cps of None \<Rightarrow> 10 | Some c \<Rightarrow> c)\<rparr>"

definition HitPayload_init :: "team \<Rightarrow> string option \<Rightarrow> int option \<Rightarrow> HitPayload" where
  "HitPayload_init t s c =
     \<lparr>HitPayload.team = t, HitPayload.shooter = s,
      HitPayload.cups = (case c of None \<Rightarrow> 1 | Some n \<Rightarrow> n)\<rparr>"

text \<open>
  \<open>HitEvent(team=..., shooter=..., cups=...)\<close>: \<open>cups\<close> is declared
  \<open>Field(1, ge=1, le=10)\<close>; the timestamp is the clock reading \<open>now\<close>.
\<close>

definition HitEvent_init :: "team \<Rightarrow> string option \<Rightarrow> int \<Rightarrow> int \<Rightarrow> error + HitEvent" where
  "HitEvent_init t s c now =
     (if 1 \<le> c \<and> c \<le> 10
      then Inr \<lparr>team = t, shooter = s, cups = c, timestamp = now\<rparr>
      else Inl ValidationError)"

text \<open>
  \<open>Match(team_a=..., team_b=..., cups_per_side=..., cups_remaining_a=...,
  cups_remaining_b=...)\<close>: \<open>cups_per_side\<close> is declared \<open>ge=1, le=20\<close>, the two
  remaining-cup fields \<open>ge=0\<close>; status, winner and events take their defaults.
\<close>

definition Match_init :: "string \<Rightarrow> string \<Rightarrow> int \<Rightarrow> int \<Rightarrow> int \<Rightarrow> error + Match" where
  "Match_init ta tb cps ra rb =
     (if 1 \<le> cps \<and> cps \<le> 20 \<and> 0 \<le> ra \<and> 0 \<le> rb
      then Inr \<lparr>team_a = ta, team_b = tb, cups_per_side = cps,
                cups_remaining_a = ra, cups_remaining_b = rb,
                status = ongoing, winner = None, events = []\<rparr>
      else Inl ValidationError)"

section \<open>The match collection\<close>

text \<open>
  The collection \<open>db["match"]\<close> maps object identifiers to documents. Every document is
  inserted through the \<open>Match\<close> model, so it carries every field of the model and the
  defaults of \<open>doc.get\<close> are never taken. \<open>find_one\<close> by \<open>_id\<close> is the lookup of the
  map, and \<open>update_one\<close> changes the document with that \<open>_id\<close> when there is one.
\<close>

type_synonym 'oid collection = "'oid \<rightharpoonup> Match"

definition find_one :: "'oid collection \<Rightarrow> 'oid \<Rightarrow> Match option" where
  "find_one db oid = db oid"

definition update_one :: "'oid collection \<Rightarrow> 'oid \<Rightarrow> (Match \<Rightarrow> Match) \<Rightarrow> 'oid collection" where
  "update_one db oid upd = (case db oid of None \<Rightarrow> db | Some doc \<Rightarrow> db(oid \<mapsto> upd doc))"

text \<open>
  Modelled from the spec: \<open>create_document\<close> of the module \<open>database\<close>, which is not
  among the sources. The spec has it insert the new match and return the newly assigned
  identifier; the identifier the store assigns is the argument \<open>new_id\<close>.
\<close>

definition create_document :: "'oid collection \<Rightarrow> 'oid \<Rightarrow> Match \<Rightarrow> 'oid collection \<times> 'oid" where
  "create_document db new_id doc = (db(new_id \<mapsto> doc), new_id)"

section \<open>The handlers of main.py\<close>

text \<open>
  \<open>ObjectId\<close> is the constructor of the bson library, a parameter here: \<open>None\<close> where
  it raises. A handler returns the collection as it leaves it together with its response
  or the exception it raised.
\<close>

definition to_obj_id :: "(string \<Rightarrow> 'oid option) \<Rightarrow> string \<Rightarrow> error + 'oid" where
  "to_obj_id ObjectId id_str =
     (case ObjectId id_str of
        Some oid \<Rightarrow> Inr oid
      | None \<Rightarrow> Inl (HTTPException 400 ''Invalid ID format''))"

definition create_match ::
  "'oid collection \<Rightarrow> 'oid \<Rightarrow> CreateMatchRequest \<Rightarrow> 'oid collection \<times> (error + 'oid)" where
  "create_match db new_id payload =
     (case Match_init (CreateMatchRequest.team_a payload) (CreateMatchRequest.team_b payload)
             (CreateMatchRequest.cups_per_side payload)
             (CreateMatchRequest.cups_per_side payload)
             (CreateMatchRequest.cups_per_side payload) of
        Inl e \<Rightarrow> (db, Inl e)
      | Inr match \<Rightarrow>
          (case create_document db new_id match of (db', match_id) \<Rightarrow> (db', Inr match_id)))"

text \<open>The key \<open>cups_field\<close> chosen by \<open>record_hit\<close>, with its read and its \<open>$set\<close>.\<close>

datatype cups_field = cups_remaining_a_key | cups_remaining_b_key

fun get_cups :: "Match \<Rightarrow> cups_field \<Rightarrow> int" where
  "get_cups doc cups_remaining_a_key = cups_remaining_a doc"
| "get_cups doc cups_remaining_b_key = cups_remaining_b doc"

fun set_cups :: "cups_field \<Rightarrow> int \<Rightarrow> Match \<Rightarrow> Match" where
  "set_cups cups_remaining_a_key v doc = doc\<lparr>cups_remaining_a := v\<rparr>"
| "set_cups cups_remaining_b_key v doc = doc\<lparr>cups_remaining_b := v\<rparr>"

definition record_hit ::
  "(string \<Rightarrow> 'oid option) \<Rightarrow> 'oid collection \<Rightarrow> string \<Rightarrow> HitPayload \<Rightarrow> int
     \<Rightarrow> 'oid collection \<times> (error + HitResponse)" where
  "record_hit ObjectId db match_id payload now =
     (case to_obj_id ObjectId match_id of
        Inl e \<Rightarrow> (db, Inl e)
      | Inr oid \<Rightarrow>
     (case find_one db oid of
        None \<Rightarrow> (db, Inl (HTTPException 404 ''Match not found''))
      | Some doc \<Rightarrow>
          if status doc = finished
          then (db, Inl (HTTPException 400 ''Match already finished''))
          else
            let cups_field = (if HitPayload.team payload = A
                              then cups_remaining_b_key else cups_remaining_a_key);
                new_value = max 0 (get_cups doc cups_field - HitPayload.cups payload);
                new_status = (if new_value = 0 then finished else status doc);
                new_winner = (if new_value = 0 then Some (HitPayload.team payload)
                              else winner doc)
            in (case HitEvent_init (HitPayload.team payload) (HitPayload.shooter payload)
                        (HitPayload.cups payload) now of
                  Inl e \<Rightarrow> (db, Inl e)
                | Inr event \<Rightarrow>
                    (update_one db oid
                       (\<lambda>d. (set_cups cups_field new_value d)
                               \<lparr>status := new_status, winner := new_winner,
                                events := events d @ [event]\<rparr>),
                     Inr \<lparr>ok = True, HitResponse.status = new_status,
                          HitResponse.winner = new_winner\<rparr>))))"

definition reset_match ::
  "(string \<Rightarrow> 'oid option) \<Rightarrow> 'oid collection \<Rightarrow> string \<Rightarrow> 'oid collection \<times> (error + bool)" where
  "reset_match ObjectId db match_id =
     (case to_obj_id ObjectId match_id of
        Inl e \<Rightarrow> (db, Inl e)
      | Inr oid \<Rightarrow>
     (case find_one db oid of
        None \<Rightarrow> (db, Inl (HTTPException 404 ''Match not found''))
      | Some doc \<Rightarrow>
          let cups = cups_per_side doc
          in (update_one db oid
                (\<lambda>d. d\<lparr>cups_remaining_a := cups, cups_remaining_b := cups,
                        status := ongoing, winner := None, events := []\<rparr>),
              Inr True)))"

section \<open>Sequences of requests\<close>

text \<open>
  A request to one of the three handlers that write, and the collection after a sequence
  of them, starting from the empty collection. A request that fails leaves the collection
  as it was, so the collections reached are those reached by the successful requests.
\<close>

datatype 'oid request =
    Create 'oid CreateMatchRequest
  | Hit string HitPayload int
  | Reset string

fun step :: "(string \<Rightarrow> 'oid option) \<Rightarrow> 'oid collection \<Rightarrow> 'oid request \<Rightarrow> 'oid collection" where
  "step ObjectId db (Create new_id payload) = fst (create_match db new_id payload)"
| "step ObjectId db (Hit match_id payload now) = fst (record_hit ObjectId db match_id payload now)"
| "step ObjectId db (Reset match_id) = fst (reset_match ObjectId db match_id)"

definition run :: "(string \<Rightarrow> 'oid option) \<Rightarrow> 'oid request list \<Rightarrow> 'oid collection" where
  "run ObjectId reqs = foldl (step ObjectId) Map.empty reqs"

section \<open>Invariants of a match document\<close>

text \<open>The winner is set exactly when the match is finished.\<close>

definition winner_iff_finished :: "Match \<Rightarrow> bool" where
  "winner_iff_finished doc = ((winner doc \<noteq> None) = (status doc = finished))"

text \<open>Both remaining-cup counts lie between 0 and the starting count.\<close>

definition cups_in_range :: "Match \<Rightarrow> bool" where
  "cups_in_range doc =
     (0 \<le> cups_remaining_a doc \<and> cups_remaining_a doc \<le> cups_per_side doc \<and>
      0 \<le> cups_remaining_b doc \<and> cups_remaining_b doc \<le> cups_per_side doc)"

text \<open>
  A match starts with at least one cup a side, and while it is ongoing each side has a
  cup left.
\<close>

definition ongoing_has_cups :: "Match \<Rightarrow> bool" where
  "ongoing_has_cups doc =
     (1 \<le> cups_per_side doc \<and>
      (status doc = finished \<or> (1 \<le> cups_remaining_a doc \<and> 1 \<le> cups_remaining_b doc)))"

text \<open>
  For the concrete runs below: an identifier, and an \<open>ObjectId\<close> that accepts it and
  raises on every other string.
\<close>

definition example_id :: string where
  "example_id = ''64b7f0c2a1d3e4f5a6b7c8d9''"

definition example_ObjectId :: "string \<Rightarrow> nat option" where
  "example_ObjectId s = (if s = example_id then Some 1 else None)"

text \<open>The document \<open>create_match\<close> stores for two teams with \<open>c\<close> cups a side.\<close>

definition fresh_match :: "int \<Rightarrow> Match" where
  "fresh_match c =
     \<lparr>team_a = ''Foxes'', team_b = ''Owls'', cups_per_side = c,
      cups_remaining_a = c, cups_remaining_b = c,
      status = ongoing, winner = None, events = []\<rparr>"

section \<open>What a handler leaves in the collection\<close>

text \<open>
  Each lemma reads a document of the collection after a handler has run: either the
  handler did not touch it, or it is the document the handler wrote.
\<close>

lemma create_match_lookup:
  assumes "fst (create_match db new_id payload) k = Some doc'"
  shows "db k = Some doc' \<or>
         (k = new_id \<and> 1 \<le> CreateMatchRequest.cups_per_side payload
            \<and> CreateMatchRequest.cups_per_side payload \<le> 20
            \<and> doc' = \<lparr>team_a = CreateMatchRequest.team_a payload,
                       team_b = CreateMatchRequest.team_b payload,
                       cups_per_side = CreateMatchRequest.cups_per_side payload,
                       cups_remaining_a = CreateMatchRequest.cups_per_side payload,
                       cups_remaining_b = CreateMatchRequest.cups_per_side payload,
                       status = ongoing, winner = None, events = []\<rparr>)"
  using assms
  by (auto simp: create_match_def Match_init_def create_document_def split: if_splits)

lemma record_hit_lookup:
  assumes "fst (record_hit ObjectId db match_id payload now) k = Some doc'"
  shows "db k = Some doc' \<or>
         (\<exists>doc. db k = Some doc \<and> ObjectId match_id = Some k \<and> status doc = ongoing
            \<and> 1 \<le> HitPayload.cups payload \<and> HitPayload.cups payload \<le> 10
            \<and> cups_per_side doc' = cups_per_side doc
            \<and> cups_remaining_a doc' =
                 (if HitPayload.team payload = A then cups_remaining_a doc
                  else max 0 (cups_remaining_a doc - HitPayload.cups payload))
            \<and> cups_remaining_b doc' =
                 (if HitPayload.team payload = A
                  then max 0 (cups_remaining_b doc - HitPayload.cups payload)
                  else cups_remaining_b doc)
            \<and> (if get_cups doc' (if HitPayload.team payload = A
                                  then cups_remaining_b_key else cups_remaining_a_key) = 0
                then status doc' = finished \<and> winner doc' = Some (HitPayload.team payload)
                else status doc' = status doc \<and> winner doc' = winner doc))"
  using assms
  by (auto simp: record_hit_def to_obj_id_def find_one_def update_one_def HitEvent_init_def
        Let_def split: option.splits if_splits status.splits intro: status.exhaust)

lemma reset_match_lookup:
  assumes "fst (reset_match ObjectId db match_id) k = Some doc'"
  shows "db k = Some doc' \<or>
         (\<exists>doc. db k = Some doc \<and> ObjectId match_id = Some k
            \<and> doc' = doc\<lparr>cups_remaining_a := cups_per_side doc,
                         cups_remaining_b := cups_per_side doc,
                         status := ongoing, winner := None, events := []\<rparr>)"
  using assms
  by (auto simp: reset_match_def to_obj_id_def find_one_def update_one_def
        Let_def split: option.splits if_splits)

section \<open>Invariants along a sequence of requests\<close>

lemma run_snoc: "run ObjectId (reqs @ [req]) = step ObjectId (run ObjectId reqs) req"
  by (simp add: run_def)

lemma step_lookup:
  assumes "step ObjectId db req k = Some doc'"
  shows "db k = Some doc'
         \<or> (\<exists>ta tb c. 1 \<le> c \<and> c \<le> 20
               \<and> doc' = \<lparr>team_a = ta, team_b = tb, cups_per_side = c,
                     cups_remaining_a = c, cups_remaining_b = c,
                     status = ongoing, winner = None, events = []\<rparr>)
         \<or> (\<exists>doc match_id payload now. db k = Some doc
               \<and> fst (record_hit ObjectId db match_id payload now) k = Some doc')
         \<or> (\<exists>doc. db k = Some doc
               \<and> doc' = doc\<lparr>cups_remaining_a := cups_per_side doc,
                         cups_remaining_b := cups_per_side doc,
                         status := ongoing, winner := None, events := []\<rparr>)"
proof (cases req)
  case (Create new_id payload)
  with assms create_match_lookup [of db new_id payload k doc'] show ?thesis
    by auto
next
  case (Hit match_id payload now)
  with assms record_hit_lookup [of ObjectId db match_id payload now k doc'] show ?thesis
    by auto
next
  case (Reset match_id)
  with assms reset_match_lookup [of ObjectId db match_id k doc'] show ?thesis
    by auto
qed

lemma step_winner_iff_finished:
  assumes "\<And>oid doc. db oid = Some doc \<Longrightarrow> winner_iff_finished doc"
    and "step ObjectId db req k = Some doc'"
  shows "winner_iff_finished doc'"
  using step_lookup [OF assms(2)]
proof (elim disjE exE conjE)
  assume "db k = Some doc'"
  then show ?thesis by (rule assms(1))
next
  fix ta tb c
  assume "doc' = \<lparr>team_a = ta, team_b = tb, cups_per_side = c,
                     cups_remaining_a = c, cups_remaining_b = c,
                     status = ongoing, winner = None, events = []\<rparr>"
  then show ?thesis by (simp add: winner_iff_finished_def)
next
  fix doc match_id payload now
  assume d: "db k = Some doc"
    and h: "fst (record_hit ObjectId db match_id payload now) k = Some doc'"
  from assms(1) [OF d] record_hit_lookup [OF h] d show ?thesis
    by (auto simp: winner_iff_finished_def split: if_splits)
next
  fix doc
  assume "doc' = doc\<lparr>cups_remaining_a := cups_per_side doc,
                         cups_remaining_b := cups_per_side doc,
                         status := ongoing, winner := None, events := []\<rparr>"
  then show ?thesis by (simp add: winner_iff_finished_def)
qed

lemma step_cups_in_range:
  assumes "\<And>oid doc. db oid = Some doc \<Longrightarrow> cups_in_range doc"
    and "step ObjectId db req k = Some doc'"
  shows "cups_in_range doc'"
  using step_lookup [OF assms(2)]
proof (elim disjE exE conjE)
  assume "db k = Some doc'"
  then show ?thesis by (rule assms(1))
next
  fix ta tb c
  assume "1 \<le> c"
    "doc' = \<lparr>team_a = ta, team_b = tb, cups_per_side = c,
                     cups_remaining_a = c, cups_remaining_b = c,
                     status = ongoing, winner = None, events = []\<rparr>"
  then show ?thesis by (simp add: cups_in_range_def)
next
  fix doc match_id payload now
  assume d: "db k = Some doc"
    and h: "fst (record_hit ObjectId db match_id payload now) k = Some doc'"
  from assms(1) [OF d] record_hit_lookup [OF h] d show ?thesis
    by (auto simp: cups_in_range_def split: if_splits)
next
  fix doc
  assume d: "db k = Some doc" and "doc' = doc\<lparr>cups_remaining_a := cups_per_side doc,
                         cups_remaining_b := cups_per_side doc,
                         status := ongoing, winner := None, events := []\<rparr>"
  with assms(1) [OF d] show ?thesis by (simp add: cups_in_range_def)
qed

lemma step_ongoing_has_cups:
  assumes "\<And>oid doc. db oid = Some doc \<Longrightarrow> ongoing_has_cups doc"
    and "step ObjectId db req k = Some doc'"
  shows "ongoing_has_cups doc'"
  using step_lookup [OF assms(2)]
proof (elim disjE exE conjE)
  assume "db k = Some doc'"
  then show ?thesis by (rule assms(1))
next
  fix ta tb c
  assume "1 \<le> c"
    "doc' = \<lparr>team_a = ta, team_b = tb, cups_per_side = c,
                     cups_remaining_a = c, cups_remaining_b = c,
                     status = ongoing, winner = None, events = []\<rparr>"
  then show ?thesis by (simp add: ongoing_has_cups_def)
next
  fix doc match_id payload now
  assume d: "db k = Some doc"
    and h: "fst (record_hit ObjectId db match_id payload now) k = Some doc'"
  from assms(1) [OF d] record_hit_lookup [OF h] d show ?thesis
    by (auto simp: ongoing_has_cups_def split: if_splits)
next
  fix doc
  assume d: "db k = Some doc" and "doc' = doc\<lparr>cups_remaining_a := cups_per_side doc,
                         cups_remaining_b := cups_per_side doc,
                         status := ongoing, winner := None, events := []\<rparr>"
  with assms(1) [OF d] show ?thesis by (simp add: ongoing_has_cups_def)
qed

lemma run_invariant:
  assumes "\<And>db req k doc'. (\<And>oid doc. db oid = Some doc \<Longrightarrow> P doc)
             \<Longrightarrow> step ObjectId db req k = Some doc' \<Longrightarrow> P doc'"
  shows "run ObjectId reqs k = Some doc \<Longrightarrow> P doc"
proof (induction reqs arbitrary: k doc rule: rev_induct)
  case Nil
  then show ?case by (simp add: run_def)
next
  case (snoc req reqs)
  show ?case
  proof (rule assms)
    show "step ObjectId (run ObjectId reqs) req k = Some doc"
      using snoc.prems by (simp add: run_snoc)
  next
    fix oid d
    assume "run ObjectId reqs oid = Some d"
    then show "P d" by (rule snoc.IH)
  qed
qed

section \<open>The hit transition\<close>

lemma record_hit_accepted:
  assumes "ObjectId match_id = Some oid" and "db oid = Some doc" and "status doc = ongoing"
    and "1 \<le> HitPayload.cups payload" and "HitPayload.cups payload \<le> 10"
  shows "record_hit ObjectId db match_id payload now =
           (db(oid \<mapsto>
              (set_cups (if HitPayload.team payload = A
                         then cups_remaining_b_key else cups_remaining_a_key)
                 (max 0 (get_cups doc (if HitPayload.team payload = A
                                       then cups_remaining_b_key else cups_remaining_a_key)
                         - HitPayload.cups payload)) doc)
              \<lparr>status :=
                 (if max 0 (get_cups doc (if HitPayload.team payload = A
                                          then cups_remaining_b_key else cups_remaining_a_key)
                            - HitPayload.cups payload) = 0
                  then finished else status doc),
               winner :=
                 (if max 0 (get_cups doc (if HitPayload.team payload = A
                                          then cups_remaining_b_key else cups_remaining_a_key)
                            - HitPayload.cups payload) = 0
                  then Some (HitPayload.team payload) else winner doc),
               events := events doc @
                 [\<lparr>team = HitPayload.team payload, shooter = HitPayload.shooter payload,
                   cups = HitPayload.cups payload, timestamp = now\<rparr>]\<rparr>),
            Inr \<lparr>ok = True,
                 HitResponse.status =
                   (if max 0 (get_cups doc (if HitPayload.team payload = A
                                            then cups_remaining_b_key else cups_remaining_a_key)
                              - HitPayload.cups payload) = 0
                    then finished else status doc),
                 HitResponse.winner =
                   (if max 0 (get_cups doc (if HitPayload.team payload = A
                                            then cups_remaining_b_key else cups_remaining_a_key)
                              - HitPayload.cups payload) = 0
                    then Some (HitPayload.team payload) else winner doc)\<rparr>)"
  using assms
  by (simp add: record_hit_def to_obj_id_def find_one_def update_one_def HitEvent_init_def
        Let_def)

lemma record_hit_Inr:
  assumes "record_hit ObjectId db match_id payload now = (db', Inr resp)"
  shows "\<exists>oid doc. ObjectId match_id = Some oid \<and> db oid = Some doc \<and> status doc = ongoing
           \<and> 1 \<le> HitPayload.cups payload \<and> HitPayload.cups payload \<le> 10"
  using assms
  by (auto simp: record_hit_def to_obj_id_def find_one_def HitEvent_init_def Let_def
        split: option.splits if_splits intro: status.exhaust)

lemma record_hit_non_increasing:
  assumes "cups_in_range doc" and "db oid = Some doc"
    and "fst (record_hit ObjectId db match_id payload now) oid = Some doc'"
  shows "cups_remaining_a doc' \<le> cups_remaining_a doc \<and>
         cups_remaining_b doc' \<le> cups_remaining_b doc"
  using record_hit_lookup [OF assms(3)] assms(1,2)
  by (auto simp: cups_in_range_def split: if_splits)

section \<open>Invariants of the reached collections\<close>

lemma run_winner_iff_finished:
  assumes "run ObjectId reqs k = Some doc"
  shows "winner_iff_finished doc"
proof (rule run_invariant [where P = winner_iff_finished, OF _ assms])
  fix db :: "'a collection" and req k doc'
  assume "\<And>oid doc. db oid = Some doc \<Longrightarrow> winner_iff_finished doc"
    and "step ObjectId db req k = Some doc'"
  then show "winner_iff_finished doc'"
    by (rule step_winner_iff_finished)
qed

lemma run_cups_in_range:
  assumes "run ObjectId reqs k = Some doc"
  shows "cups_in_range doc"
proof (rule run_invariant [where P = cups_in_range, OF _ assms])
  fix db :: "'a collection" and req k doc'
  assume "\<And>oid doc. db oid = Some doc \<Longrightarrow> cups_in_range doc"
    and "step ObjectId db req k = Some doc'"
  then show "cups_in_range doc'"
    by (rule step_cups_in_range)
qed

lemma run_ongoing_has_cups:
  assumes "run ObjectId reqs k = Some doc"
  shows "ongoing_has_cups doc"
proof (rule run_invariant [where P = ongoing_has_cups, OF _ assms])
  fix db :: "'a collection" and req k doc'
  assume "\<And>oid doc. db oid = Some doc \<Longrightarrow> ongoing_has_cups doc"
    and "step ObjectId db req k = Some doc'"
  then show "ongoing_has_cups doc'"
    by (rule step_ongoing_has_cups)
qed

section \<open>Concrete runs\<close>

lemma example_ObjectId_example_id: "example_ObjectId example_id = Some 1"
  by (simp add: example_ObjectId_def)

lemma run_create_example:
  "run example_ObjectId [Create i (CreateMatchRequest_init ''Foxes'' ''Owls'' (Some c))] =
     (if 1 \<le> c \<and> c \<le> 20 then [i \<mapsto> fresh_match c] else Map.empty)"
  by (simp add: run_def create_match_def Match_init_def CreateMatchRequest_init_def
        create_document_def fresh_match_def)

lemma run_create_hit_example:
  "run example_ObjectId
     [Create 1 (CreateMatchRequest_init ''Foxes'' ''Owls'' (Some 3)),
      Hit example_id (HitPayload_init A None (Some 2)) 100] =
   [1 \<mapsto> (fresh_match 3)
      \<lparr>cups_remaining_b := 1,
       events := [\<lparr>team = A, shooter = None, cups = 2, timestamp = 100\<rparr>]\<rparr>]"
proof -
  have "run example_ObjectId
     [Create 1 (CreateMatchRequest_init ''Foxes'' ''Owls'' (Some 3)),
      Hit example_id (HitPayload_init A None (Some 2)) 100] =
    fst (record_hit example_ObjectId [1 \<mapsto> fresh_match 3] example_id
           (HitPayload_init A None (Some 2)) 100)"
    using run_snoc [of example_ObjectId
        "[Create 1 (CreateMatchRequest_init ''Foxes'' ''Owls'' (Some 3))]"
        "Hit example_id (HitPayload_init A None (Some 2)) 100"]
    by (simp add: run_create_example)
  also have "\<dots> = [1 \<mapsto> (fresh_match 3)
      \<lparr>cups_remaining_b := 1,
       events := [\<lparr>team = A, shooter = None, cups = 2, timestamp = 100\<rparr>]\<rparr>]"
    by (simp add: record_hit_def to_obj_id_def find_one_def update_one_def HitEvent_init_def
        HitPayload_init_def example_ObjectId_def fresh_match_def Let_def)
  finally show ?thesis .
qed

lemma record_hit_finishing_example:
  "record_hit example_ObjectId
     [1 \<mapsto> (fresh_match 3)
        \<lparr>cups_remaining_b := 1,
         events := [\<lparr>team = A, shooter = None, cups = 2, timestamp = 100\<rparr>]\<rparr>]
     example_id (HitPayload_init A None (Some 4)) 101 =
   ([1 \<mapsto> (fresh_match 3)
        \<lparr>cups_remaining_b := 0, status := finished, winner := Some A,
         events := [\<lparr>team = A, shooter = None, cups = 2, timestamp = 100\<rparr>,
                    \<lparr>team = A, shooter = None, cups = 4, timestamp = 101\<rparr>]\<rparr>],
    Inr \<lparr>ok = True, HitResponse.status = finished, HitResponse.winner = Some A\<rparr>)"
  by (simp add: record_hit_def to_obj_id_def find_one_def update_one_def HitEvent_init_def
        HitPayload_init_def example_ObjectId_def fresh_match_def Let_def)

section \<open>The claims\<close>

subsection \<open>hit decrements opposing side\<close>

text \<open>
  Claim C1, amended. For a hit whose \<open>cups\<close> lies in 1..10 on an ongoing match, the
  request succeeds and the cups come off the opposing side: with team \<open>A\<close> in the
  payload the match written has \<open>cups_remaining_b\<close> at the old value less \<open>cups\<close>, not
  below 0 and smaller than before when a cup was left, and \<open>cups_remaining_a\<close> as it
  was; with team \<open>B\<close> the two fields change places.
\<close>

theorem hit_decrements_opposing_side:
  assumes "ObjectId match_id = Some oid" and "db oid = Some doc" and "status doc = ongoing"
    and "1 \<le> HitPayload.cups payload" and "HitPayload.cups payload \<le> 10"
  shows "\<exists>doc' resp.
           record_hit ObjectId db match_id payload now = (db(oid \<mapsto> doc'), Inr resp) \<and>
           (HitPayload.team payload = A \<longrightarrow>
              cups_remaining_b doc' = max 0 (cups_remaining_b doc - HitPayload.cups payload) \<and>
              (0 < cups_remaining_b doc \<longrightarrow> cups_remaining_b doc' < cups_remaining_b doc) \<and>
              cups_remaining_a doc' = cups_remaining_a doc) \<and>
           (HitPayload.team payload = B \<longrightarrow>
              cups_remaining_a doc' = max 0 (cups_remaining_a doc - HitPayload.cups payload) \<and>
              (0 < cups_remaining_a doc \<longrightarrow> cups_remaining_a doc' < cups_remaining_a doc) \<and>
              cups_remaining_b doc' = cups_remaining_b doc)"
  using record_hit_accepted [of ObjectId match_id oid db doc payload now] assms
  by (cases "HitPayload.team payload") auto

theorem hit_decrements_opposing_side_witness:
  "example_ObjectId example_id = Some 1 \<and>
   status (fresh_match 10) = ongoing \<and>
   1 \<le> HitPayload.cups (HitPayload_init A None (Some 3)) \<and>
   HitPayload.cups (HitPayload_init A None (Some 3)) \<le> 10 \<and>
   record_hit example_ObjectId [1 \<mapsto> fresh_match 10] example_id
       (HitPayload_init A None (Some 3)) 100 =
     ([1 \<mapsto> (fresh_match 10)
          \<lparr>cups_remaining_b := 7,
           events := [\<lparr>team = A, shooter = None, cups = 3, timestamp = 100\<rparr>]\<rparr>],
      Inr \<lparr>ok = True, HitResponse.status = ongoing, HitResponse.winner = None\<rparr>) \<and>
   (\<exists>doc' resp.
      record_hit example_ObjectId [1 \<mapsto> fresh_match 10] example_id
          (HitPayload_init A None (Some 3)) 100 =
        ([1 \<mapsto> doc'], Inr resp) \<and>
      cups_remaining_b doc' = 7 \<and>
      cups_remaining_b doc' < cups_remaining_b (fresh_match 10) \<and>
      cups_remaining_a doc' = 10)"
proof -
  let ?p = "HitPayload_init A None (Some 3)"
  have h1: "example_ObjectId example_id = Some 1"
    by (simp add: example_ObjectId_def)
  have h2: "[1 \<mapsto> fresh_match 10] (1::nat) = Some (fresh_match 10)"
    by simp
  have h3: "status (fresh_match 10) = ongoing"
    by (simp add: fresh_match_def)
  have h4: "1 \<le> HitPayload.cups ?p" and h5: "HitPayload.cups ?p \<le> 10"
    by (simp_all add: HitPayload_init_def)
  from hit_decrements_opposing_side [where ObjectId = example_ObjectId
      and match_id = example_id and oid = 1 and db = "[1 \<mapsto> fresh_match 10]"
      and now = 100, OF h1 h2 h3 h4 h5]
  have e: "\<exists>doc' resp.
      record_hit example_ObjectId [1 \<mapsto> fresh_match 10] example_id ?p 100 =
        ([1 \<mapsto> doc'], Inr resp) \<and>
      cups_remaining_b doc' = 7 \<and>
      cups_remaining_b doc' < cups_remaining_b (fresh_match 10) \<and>
      cups_remaining_a doc' = 10"
    by (auto simp: HitPayload_init_def fresh_match_def)
  have r: "record_hit example_ObjectId [1 \<mapsto> fresh_match 10] example_id ?p 100 =
     ([1 \<mapsto> (fresh_match 10)
          \<lparr>cups_remaining_b := 7,
           events := [\<lparr>team = A, shooter = None, cups = 3, timestamp = 100\<rparr>]\<rparr>],
      Inr \<lparr>ok = True, HitResponse.status = ongoing, HitResponse.winner = None\<rparr>)"
    by (simp add: record_hit_def to_obj_id_def find_one_def update_one_def HitEvent_init_def
        HitPayload_init_def example_ObjectId_def fresh_match_def Let_def)
  from h1 h3 h4 h5 r e show ?thesis
    by (intro conjI) blast+
qed

text \<open>
  Claim C1 as stated, for every hit, fails: on a fresh match of 20 cups a side a hit of
  team \<open>A\<close> with 11 cups raises the validation error of \<open>HitEvent\<close>, and
  \<open>cups_remaining_b\<close> stays at 20 instead of going down to 9.
\<close>

theorem hit_decrements_opposing_side_counterexample:
  "run example_ObjectId [Create 1 (CreateMatchRequest_init ''Foxes'' ''Owls'' (Some 20))] =
     [1 \<mapsto> fresh_match 20] \<and>
   status (fresh_match 20) = ongoing \<and>
   cups_remaining_b (fresh_match 20) = 20 \<and>
   max 0 (cups_remaining_b (fresh_match 20)
          - HitPayload.cups (HitPayload_init A None (Some 11))) = 9 \<and>
   record_hit example_ObjectId [1 \<mapsto> fresh_match 20] example_id
       (HitPayload_init A None (Some 11)) 100 =
     ([1 \<mapsto> fresh_match 20], Inl ValidationError)"
  by (simp add: run_create_example)
    (simp add: record_hit_def to_obj_id_def find_one_def HitEvent_init_def
       HitPayload_init_def example_ObjectId_def fresh_match_def Let_def)

subsection \<open>hit clamps at zero\<close>

text \<open>
  Claim C2, amended. For a hit whose \<open>cups\<close> lies in 1..10 on an ongoing match, the
  request succeeds and the new value of the targeted field is \<open>max 0 (current - cups)\<close>,
  never negative. When \<open>cups\<close> exceeds the remaining count the field is exactly 0 and the
  match finishes; the document written has nothing but the four updated fields changed,
  the event carrying the \<open>cups\<close> of the payload.
\<close>

theorem hit_clamps_at_zero:
  assumes "ObjectId match_id = Some oid" and "db oid = Some doc" and "status doc = ongoing"
    and "1 \<le> HitPayload.cups payload" and "HitPayload.cups payload \<le> 10"
    and "cups_field = (if HitPayload.team payload = A
                       then cups_remaining_b_key else cups_remaining_a_key)"
  shows "\<exists>doc' resp.
           record_hit ObjectId db match_id payload now = (db(oid \<mapsto> doc'), Inr resp) \<and>
           get_cups doc' cups_field = max 0 (get_cups doc cups_field - HitPayload.cups payload) \<and>
           0 \<le> get_cups doc' cups_field \<and>
           (get_cups doc cups_field < HitPayload.cups payload \<longrightarrow>
              get_cups doc' cups_field = 0 \<and> HitResponse.status resp = finished \<and>
              doc' = (set_cups cups_field 0 doc)
                       \<lparr>status := finished, winner := Some (HitPayload.team payload),
                        events := events doc @
                          [\<lparr>team = HitPayload.team payload,
                            shooter = HitPayload.shooter payload,
                            cups = HitPayload.cups payload, timestamp = now\<rparr>]\<rparr>)"
  using record_hit_accepted [of ObjectId match_id oid db doc payload now] assms
  by (cases "HitPayload.team payload") auto

theorem hit_clamps_at_zero_witness:
  "example_ObjectId example_id = Some 1 \<and>
   status (fresh_match 3) = ongoing \<and>
   1 \<le> HitPayload.cups (HitPayload_init A None (Some 5)) \<and>
   HitPayload.cups (HitPayload_init A None (Some 5)) \<le> 10 \<and>
   cups_remaining_b (fresh_match 3) < HitPayload.cups (HitPayload_init A None (Some 5)) \<and>
   record_hit example_ObjectId [1 \<mapsto> fresh_match 3] example_id
       (HitPayload_init A None (Some 5)) 100 =
     ([1 \<mapsto> (fresh_match 3)
          \<lparr>cups_remaining_b := 0, status := finished, winner := Some A,
           events := [\<lparr>team = A, shooter = None, cups = 5, timestamp = 100\<rparr>]\<rparr>],
      Inr \<lparr>ok = True, HitResponse.status = finished, HitResponse.winner = Some A\<rparr>)"
proof -
  have h1: "example_ObjectId example_id = Some 1"
    by (simp add: example_ObjectId_def)
  have h2: "[1 \<mapsto> fresh_match 3] (1::nat) = Some (fresh_match 3)"
    by simp
  have h3: "status (fresh_match 3) = ongoing"
    by (simp add: fresh_match_def)
  have h4: "1 \<le> HitPayload.cups (HitPayload_init A None (Some 5))"
    and h5: "HitPayload.cups (HitPayload_init A None (Some 5)) \<le> 10"
    by (simp_all add: HitPayload_init_def)
  have h6: "cups_remaining_b_key =
      (if HitPayload.team (HitPayload_init A None (Some 5)) = A
       then cups_remaining_b_key else cups_remaining_a_key)"
    by (simp add: HitPayload_init_def)
  have h7: "cups_remaining_b (fresh_match 3) < HitPayload.cups (HitPayload_init A None (Some 5))"
    by (simp add: HitPayload_init_def fresh_match_def)
  from hit_clamps_at_zero [where ObjectId = example_ObjectId and match_id = example_id
      and oid = 1 and db = "[1 \<mapsto> fresh_match 3]" and now = 100, OF h1 h2 h3 h4 h5 h6] h7
  have "record_hit example_ObjectId [1 \<mapsto> fresh_match 3] example_id
       (HitPayload_init A None (Some 5)) 100 =
     ([1 \<mapsto> (fresh_match 3)
          \<lparr>cups_remaining_b := 0, status := finished, winner := Some A,
           events := [\<lparr>team = A, shooter = None, cups = 5, timestamp = 100\<rparr>]\<rparr>],
      Inr \<lparr>ok = True, HitResponse.status = finished, HitResponse.winner = Some A\<rparr>)"
    by (auto simp: HitPayload_init_def fresh_match_def record_hit_def to_obj_id_def
          find_one_def update_one_def HitEvent_init_def example_ObjectId_def Let_def)
  with h1 h3 h4 h5 h7 show ?thesis
    by (intro conjI) blast+
qed

text \<open>
  Claim C2 as stated, for every hit, fails: on a fresh match of 12 cups a side a hit of
  team \<open>A\<close> with 13 cups exceeds the remaining count, yet the request raises the
  validation error of \<open>HitEvent\<close> and the match keeps its 12 cups and stays ongoing.
\<close>

theorem hit_clamps_at_zero_counterexample:
  "run example_ObjectId [Create 1 (CreateMatchRequest_init ''Foxes'' ''Owls'' (Some 12))] =
     [1 \<mapsto> fresh_match 12] \<and>
   status (fresh_match 12) = ongoing \<and>
   cups_remaining_b (fresh_match 12) < HitPayload.cups (HitPayload_init A None (Some 13)) \<and>
   record_hit example_ObjectId [1 \<mapsto> fresh_match 12] example_id
       (HitPayload_init A None (Some 13)) 100 =
     ([1 \<mapsto> fresh_match 12], Inl ValidationError)"
  by (simp add: run_create_example)
    (simp add: record_hit_def to_obj_id_def find_one_def HitEvent_init_def
       HitPayload_init_def example_ObjectId_def fresh_match_def Let_def)

subsection \<open>hit finishes at zero\<close>

text \<open>
  Claim C3, amended. For a hit whose \<open>cups\<close> lies in 1..10 on an ongoing match: when the
  clamped new value is 0 the match written, and the response, have status \<open>finished\<close>
  and the payload's team as winner; otherwise status and winner are those of the current
  document.
\<close>

theorem hit_finishes_at_zero:
  assumes "ObjectId match_id = Some oid" and "db oid = Some doc" and "status doc = ongoing"
    and "1 \<le> HitPayload.cups payload" and "HitPayload.cups payload \<le> 10"
    and "new_value = max 0 (get_cups doc (if HitPayload.team payload = A
                                          then cups_remaining_b_key else cups_remaining_a_key)
                            - HitPayload.cups payload)"
  shows "\<exists>doc' resp.
           record_hit ObjectId db match_id payload now = (db(oid \<mapsto> doc'), Inr resp) \<and>
           (new_value = 0 \<longrightarrow>
              status doc' = finished \<and> winner doc' = Some (HitPayload.team payload) \<and>
              HitResponse.status resp = finished \<and>
              HitResponse.winner resp = Some (HitPayload.team payload)) \<and>
           (new_value \<noteq> 0 \<longrightarrow>
              status doc' = status doc \<and> winner doc' = winner doc \<and>
              HitResponse.status resp = status doc \<and> HitResponse.winner resp = winner doc)"
  using record_hit_accepted [of ObjectId match_id oid db doc payload now] assms
  by (cases "HitPayload.team payload") auto

theorem hit_finishes_at_zero_witness:
  "example_ObjectId example_id = Some 1 \<and>
   status (fresh_match 2) = ongoing \<and>
   1 \<le> HitPayload.cups (HitPayload_init B (Some ''Kim'') None) \<and>
   HitPayload.cups (HitPayload_init B (Some ''Kim'') None) \<le> 10 \<and>
   record_hit example_ObjectId [1 \<mapsto> fresh_match 2] example_id
       (HitPayload_init B (Some ''Kim'') None) 100 =
     ([1 \<mapsto> (fresh_match 2)
          \<lparr>cups_remaining_a := 1,
           events := [\<lparr>team = B, shooter = Some ''Kim'', cups = 1, timestamp = 100\<rparr>]\<rparr>],
      Inr \<lparr>ok = True, HitResponse.status = ongoing, HitResponse.winner = None\<rparr>) \<and>
   record_hit example_ObjectId
       [1 \<mapsto> (fresh_match 2)
          \<lparr>cups_remaining_a := 1,
           events := [\<lparr>team = B, shooter = Some ''Kim'', cups = 1, timestamp = 100\<rparr>]\<rparr>]
       example_id (HitPayload_init B (Some ''Kim'') None) 101 =
     ([1 \<mapsto> (fresh_match 2)
          \<lparr>cups_remaining_a := 0, status := finished, winner := Some B,
           events := [\<lparr>team = B, shooter = Some ''Kim'', cups = 1, timestamp = 100\<rparr>,
                      \<lparr>team = B, shooter = Some ''Kim'', cups = 1, timestamp = 101\<rparr>]\<rparr>],
      Inr \<lparr>ok = True, HitResponse.status = finished, HitResponse.winner = Some B\<rparr>)"
proof -
  let ?p = "HitPayload_init B (Some ''Kim'') None"
  let ?d = "(fresh_match 2)
          \<lparr>cups_remaining_a := 1,
           events := [\<lparr>team = B, shooter = Some ''Kim'', cups = 1, timestamp = 100\<rparr>]\<rparr>"
  have h1: "example_ObjectId example_id = Some 1"
    by (simp add: example_ObjectId_def)
  have h2: "[1 \<mapsto> fresh_match 2] (1::nat) = Some (fresh_match 2)"
    and h2': "[1 \<mapsto> ?d] (1::nat) = Some ?d"
    by simp_all
  have h3: "status (fresh_match 2) = ongoing" and h3': "status ?d = ongoing"
    by (simp_all add: fresh_match_def)
  have h4: "1 \<le> HitPayload.cups ?p" and h5: "HitPayload.cups ?p \<le> 10"
    by (simp_all add: HitPayload_init_def)
  have h6: "(1::int) = max 0 (get_cups (fresh_match 2)
               (if HitPayload.team ?p = A then cups_remaining_b_key else cups_remaining_a_key)
               - HitPayload.cups ?p)"
    and h6': "(0::int) = max 0 (get_cups ?d
               (if HitPayload.team ?p = A then cups_remaining_b_key else cups_remaining_a_key)
               - HitPayload.cups ?p)"
    by (simp_all add: HitPayload_init_def fresh_match_def)
  from hit_finishes_at_zero [where ObjectId = example_ObjectId and match_id = example_id
      and oid = 1 and db = "[1 \<mapsto> fresh_match 2]" and now = 100, OF h1 h2 h3 h4 h5 h6]
  have a: "record_hit example_ObjectId [1 \<mapsto> fresh_match 2] example_id ?p 100 =
     ([1 \<mapsto> ?d],
      Inr \<lparr>ok = True, HitResponse.status = ongoing, HitResponse.winner = None\<rparr>)"
    by (auto simp: HitPayload_init_def fresh_match_def record_hit_def to_obj_id_def
          find_one_def update_one_def HitEvent_init_def example_ObjectId_def Let_def)
  from hit_finishes_at_zero [where ObjectId = example_ObjectId and match_id = example_id
      and oid = 1 and db = "[1 \<mapsto> ?d]" and now = 101, OF h1 h2' h3' h4 h5 h6']
  have b: "record_hit example_ObjectId [1 \<mapsto> ?d] example_id ?p 101 =
     ([1 \<mapsto> (fresh_match 2)
          \<lparr>cups_remaining_a := 0, status := finished, winner := Some B,
           events := [\<lparr>team = B, shooter = Some ''Kim'', cups = 1, timestamp = 100\<rparr>,
                      \<lparr>team = B, shooter = Some ''Kim'', cups = 1, timestamp = 101\<rparr>]\<rparr>],
      Inr \<lparr>ok = True, HitResponse.status = finished, HitResponse.winner = Some B\<rparr>)"
    by (auto simp: HitPayload_init_def fresh_match_def record_hit_def to_obj_id_def
          find_one_def update_one_def HitEvent_init_def example_ObjectId_def Let_def)
  from h1 h3 h4 h5 a b show ?thesis
    by (intro conjI) blast+
qed

text \<open>
  Claim C3 as stated, for every hit, fails: on a fresh match of 11 cups a side a hit of
  team \<open>B\<close> with 11 cups has the clamped new value 0, yet the request raises the
  validation error of \<open>HitEvent\<close> and the match stays ongoing without a winner.
\<close>

theorem hit_finishes_at_zero_counterexample:
  "run example_ObjectId [Create 1 (CreateMatchRequest_init ''Foxes'' ''Owls'' (Some 11))] =
     [1 \<mapsto> fresh_match 11] \<and>
   status (fresh_match 11) = ongoing \<and> winner (fresh_match 11) = None \<and>
   max 0 (get_cups (fresh_match 11) cups_remaining_a_key
          - HitPayload.cups (HitPayload_init B None (Some 11))) = 0 \<and>
   record_hit example_ObjectId [1 \<mapsto> fresh_match 11] example_id
       (HitPayload_init B None (Some 11)) 100 =
     ([1 \<mapsto> fresh_match 11], Inl ValidationError)"
  by (simp add: run_create_example)
    (simp add: record_hit_def to_obj_id_def find_one_def HitEvent_init_def
       HitPayload_init_def example_ObjectId_def fresh_match_def Let_def)

subsection \<open>hit on finished rejected\<close>

text \<open>
  Claim C4. Recording a hit on a finished match raises \<open>HTTPException\<close> with status code
  400 and detail \<open>Match already finished\<close>, and the collection is left as it was: no cup
  count, status, winner or event changes.
\<close>

theorem hit_on_finished_rejected:
  assumes "ObjectId match_id = Some oid" and "db oid = Some doc" and "status doc = finished"
  shows "record_hit ObjectId db match_id payload now =
           (db, Inl (HTTPException 400 ''Match already finished''))"
  using assms by (simp add: record_hit_def to_obj_id_def find_one_def)

theorem hit_on_finished_rejected_witness:
  "example_ObjectId example_id = Some 1 \<and>
   status ((fresh_match 3)\<lparr>cups_remaining_b := 0, status := finished, winner := Some A\<rparr>)
     = finished \<and>
   record_hit example_ObjectId
       [1 \<mapsto> (fresh_match 3)\<lparr>cups_remaining_b := 0, status := finished, winner := Some A\<rparr>]
       example_id (HitPayload_init B None (Some 2)) 100 =
     ([1 \<mapsto> (fresh_match 3)\<lparr>cups_remaining_b := 0, status := finished, winner := Some A\<rparr>],
      Inl (HTTPException 400 ''Match already finished''))"
proof -
  let ?d = "(fresh_match 3)\<lparr>cups_remaining_b := 0, status := finished, winner := Some A\<rparr>"
  have h1: "example_ObjectId example_id = Some 1"
    by (simp add: example_ObjectId_def)
  have h2: "[1 \<mapsto> ?d] (1::nat) = Some ?d"
    by simp
  have h3: "status ?d = finished"
    by simp
  from h1 h3 hit_on_finished_rejected [where ObjectId = example_ObjectId
      and match_id = example_id and oid = 1 and db = "[1 \<mapsto> ?d]"
      and payload = "HitPayload_init B None (Some 2)" and now = 100, OF h1 h2 h3]
  show ?thesis
    by (intro conjI) blast+
qed

subsection \<open>winner set iff finished\<close>

text \<open>
  Claim C5. The winner is set if and only if the status is \<open>finished\<close>: in every match
  of a collection reached by any sequence of requests, and after any one request (a
  creation, a hit or a reset) on a collection whose matches all satisfy it.
\<close>

theorem winner_set_iff_finished:
  "(\<forall>oid doc. run ObjectId reqs oid = Some doc \<longrightarrow> winner_iff_finished doc) \<and>
   ((\<forall>oid doc. db oid = Some doc \<longrightarrow> winner_iff_finished doc) \<longrightarrow>
    (\<forall>oid doc. step ObjectId db req oid = Some doc \<longrightarrow> winner_iff_finished doc))"
proof (intro conjI allI impI)
  fix oid doc
  assume "run ObjectId reqs oid = Some doc"
  then show "winner_iff_finished doc"
    by (rule run_winner_iff_finished)
next
  fix oid doc
  assume "\<forall>oid doc. db oid = Some doc \<longrightarrow> winner_iff_finished doc"
    and "step ObjectId db req oid = Some doc"
  then show "winner_iff_finished doc"
    using step_winner_iff_finished [of db ObjectId req oid doc] by blast
qed

theorem winner_set_iff_finished_witness:
  "run example_ObjectId
     [Create 1 (CreateMatchRequest_init ''Foxes'' ''Owls'' (Some 3)),
      Hit example_id (HitPayload_init A None (Some 2)) 100] 1 =
     Some ((fresh_match 3)
      \<lparr>cups_remaining_b := 1,
       events := [\<lparr>team = A, shooter = None, cups = 2, timestamp = 100\<rparr>]\<rparr>) \<and>
   winner_iff_finished ((fresh_match 3)
      \<lparr>cups_remaining_b := 1,
       events := [\<lparr>team = A, shooter = None, cups = 2, timestamp = 100\<rparr>]\<rparr>) \<and>
   step example_ObjectId
     [1 \<mapsto> (fresh_match 3)
        \<lparr>cups_remaining_b := 1,
         events := [\<lparr>team = A, shooter = None, cups = 2, timestamp = 100\<rparr>]\<rparr>]
     (Hit example_id (HitPayload_init A None (Some 4)) 101) 1 =
     Some ((fresh_match 3)
        \<lparr>cups_remaining_b := 0, status := finished, winner := Some A,
         events := [\<lparr>team = A, shooter = None, cups = 2, timestamp = 100\<rparr>,
                    \<lparr>team = A, shooter = None, cups = 4, timestamp = 101\<rparr>]\<rparr>) \<and>
   winner_iff_finished ((fresh_match 3)
        \<lparr>cups_remaining_b := 0, status := finished, winner := Some A,
         events := [\<lparr>team = A, shooter = None, cups = 2, timestamp = 100\<rparr>,
                    \<lparr>team = A, shooter = None, cups = 4, timestamp = 101\<rparr>]\<rparr>)"
proof -
  let ?reqs = "[Create 1 (CreateMatchRequest_init ''Foxes'' ''Owls'' (Some 3)),
      Hit example_id (HitPayload_init A None (Some 2)) 100]"
  let ?d = "(fresh_match 3)
      \<lparr>cups_remaining_b := 1,
       events := [\<lparr>team = A, shooter = None, cups = 2, timestamp = 100\<rparr>]\<rparr>"
  let ?req = "Hit example_id (HitPayload_init A None (Some 4)) 101"
  let ?d' = "(fresh_match 3)
        \<lparr>cups_remaining_b := 0, status := finished, winner := Some A,
         events := [\<lparr>team = A, shooter = None, cups = 2, timestamp = 100\<rparr>,
                    \<lparr>team = A, shooter = None, cups = 4, timestamp = 101\<rparr>]\<rparr>"
  note inst = winner_set_iff_finished [of example_ObjectId ?reqs "[1 \<mapsto> ?d]" ?req]
  have r: "run example_ObjectId ?reqs 1 = Some ?d"
    unfolding run_create_hit_example by simp
  with inst have i: "winner_iff_finished ?d"
    by blast
  then have "\<forall>oid doc. [1 \<mapsto> ?d] oid = Some doc \<longrightarrow> winner_iff_finished doc"
    by (simp split: if_splits)
  moreover have s: "step example_ObjectId [1 \<mapsto> ?d] ?req 1 = Some ?d'"
    unfolding step.simps record_hit_finishing_example by simp
  ultimately have "winner_iff_finished ?d'"
    using inst by blast
  with r i s show ?thesis
    by (intro conjI) blast+
qed

subsection \<open>cups remaining bounds\<close>

text \<open>
  Claim C6. Both remaining-cup counts stay between 0 and \<open>cups_per_side\<close>: in every
  match of a collection reached by any sequence of requests, and after any one request on
  a collection whose matches all satisfy it. A successful hit on a reached collection
  leaves neither count of any match larger than it was.
\<close>

theorem cups_remaining_bounds:
  "(\<forall>oid doc. run ObjectId reqs oid = Some doc \<longrightarrow> cups_in_range doc) \<and>
   ((\<forall>oid doc. db oid = Some doc \<longrightarrow> cups_in_range doc) \<longrightarrow>
    (\<forall>oid doc. step ObjectId db req oid = Some doc \<longrightarrow> cups_in_range doc)) \<and>
   (\<forall>oid doc doc' resp.
      run ObjectId reqs oid = Some doc \<and>
      record_hit ObjectId (run ObjectId reqs) match_id payload now = (db', Inr resp) \<and>
      db' oid = Some doc' \<longrightarrow>
      cups_remaining_a doc' \<le> cups_remaining_a doc \<and>
      cups_remaining_b doc' \<le> cups_remaining_b doc)"
proof (intro conjI)
  show "\<forall>oid doc. run ObjectId reqs oid = Some doc \<longrightarrow> cups_in_range doc"
    by (blast intro: run_cups_in_range)
next
  show "(\<forall>oid doc. db oid = Some doc \<longrightarrow> cups_in_range doc) \<longrightarrow>
    (\<forall>oid doc. step ObjectId db req oid = Some doc \<longrightarrow> cups_in_range doc)"
    using step_cups_in_range [of db ObjectId req] by blast
next
  show "\<forall>oid doc doc' resp.
      run ObjectId reqs oid = Some doc \<and>
      record_hit ObjectId (run ObjectId reqs) match_id payload now = (db', Inr resp) \<and>
      db' oid = Some doc' \<longrightarrow>
      cups_remaining_a doc' \<le> cups_remaining_a doc \<and>
      cups_remaining_b doc' \<le> cups_remaining_b doc"
  proof (intro allI impI)
    fix oid doc doc' resp
    assume a: "run ObjectId reqs oid = Some doc \<and>
      record_hit ObjectId (run ObjectId reqs) match_id payload now = (db', Inr resp) \<and>
      db' oid = Some doc'"
    then have "cups_in_range doc"
      by (blast intro: run_cups_in_range)
    moreover from a have "run ObjectId reqs oid = Some doc"
      by simp
    moreover from a
    have "fst (record_hit ObjectId (run ObjectId reqs) match_id payload now) oid = Some doc'"
      by simp
    ultimately show "cups_remaining_a doc' \<le> cups_remaining_a doc \<and>
        cups_remaining_b doc' \<le> cups_remaining_b doc"
      by (rule record_hit_non_increasing)
  qed
qed

theorem cups_remaining_bounds_witness:
  "run example_ObjectId
     [Create 1 (CreateMatchRequest_init ''Foxes'' ''Owls'' (Some 3)),
      Hit example_id (HitPayload_init A None (Some 2)) 100] 1 =
     Some ((fresh_match 3)
      \<lparr>cups_remaining_b := 1,
       events := [\<lparr>team = A, shooter = None, cups = 2, timestamp = 100\<rparr>]\<rparr>) \<and>
   cups_in_range ((fresh_match 3)
      \<lparr>cups_remaining_b := 1,
       events := [\<lparr>team = A, shooter = None, cups = 2, timestamp = 100\<rparr>]\<rparr>) \<and>
   step example_ObjectId
     [1 \<mapsto> (fresh_match 3)
        \<lparr>cups_remaining_b := 1,
         events := [\<lparr>team = A, shooter = None, cups = 2, timestamp = 100\<rparr>]\<rparr>]
     (Hit example_id (HitPayload_init A None (Some 4)) 101) 1 =
     Some ((fresh_match 3)
        \<lparr>cups_remaining_b := 0, status := finished, winner := Some A,
         events := [\<lparr>team = A, shooter = None, cups = 2, timestamp = 100\<rparr>,
                    \<lparr>team = A, shooter = None, cups = 4, timestamp = 101\<rparr>]\<rparr>) \<and>
   cups_in_range ((fresh_match 3)
        \<lparr>cups_remaining_b := 0, status := finished, winner := Some A,
         events := [\<lparr>team = A, shooter = None, cups = 2, timestamp = 100\<rparr>,
                    \<lparr>team = A, shooter = None, cups = 4, timestamp = 101\<rparr>]\<rparr>) \<and>
   cups_remaining_a ((fresh_match 3)
        \<lparr>cups_remaining_b := 0, status := finished, winner := Some A,
         events := [\<lparr>team = A, shooter = None, cups = 2, timestamp = 100\<rparr>,
                    \<lparr>team = A, shooter = None, cups = 4, timestamp = 101\<rparr>]\<rparr>)
     \<le> cups_remaining_a ((fresh_match 3)
      \<lparr>cups_remaining_b := 1,
       events := [\<lparr>team = A, shooter = None, cups = 2, timestamp = 100\<rparr>]\<rparr>) \<and>
   cups_remaining_b ((fresh_match 3)
        \<lparr>cups_remaining_b := 0, status := finished, winner := Some A,
         events := [\<lparr>team = A, shooter = None, cups = 2, timestamp = 100\<rparr>,
                    \<lparr>team = A, shooter = None, cups = 4, timestamp = 101\<rparr>]\<rparr>)
     \<le> cups_remaining_b ((fresh_match 3)
      \<lparr>cups_remaining_b := 1,
       events := [\<lparr>team = A, shooter = None, cups = 2, timestamp = 100\<rparr>]\<rparr>)"
proof -
  let ?reqs = "[Create 1 (CreateMatchRequest_init ''Foxes'' ''Owls'' (Some 3)),
      Hit example_id (HitPayload_init A None (Some 2)) 100]"
  let ?d = "(fresh_match 3)
      \<lparr>cups_remaining_b := 1,
       events := [\<lparr>team = A, shooter = None, cups = 2, timestamp = 100\<rparr>]\<rparr>"
  let ?req = "Hit example_id (HitPayload_init A None (Some 4)) 101"
  let ?d' = "(fresh_match 3)
        \<lparr>cups_remaining_b := 0, status := finished, winner := Some A,
         events := [\<lparr>team = A, shooter = None, cups = 2, timestamp = 100\<rparr>,
                    \<lparr>team = A, shooter = None, cups = 4, timestamp = 101\<rparr>]\<rparr>"
  note inst = cups_remaining_bounds [where ObjectId = example_ObjectId and reqs = ?reqs
      and db = "[1 \<mapsto> ?d]" and req = ?req and match_id = example_id
      and payload = "HitPayload_init A None (Some 4)" and now = 101
      and db' = "[1 \<mapsto> ?d']"]
  have r: "run example_ObjectId ?reqs 1 = Some ?d"
    unfolding run_create_hit_example by simp
  with inst have i: "cups_in_range ?d"
    by blast
  then have "\<forall>oid doc. [1 \<mapsto> ?d] oid = Some doc \<longrightarrow> cups_in_range doc"
    by (simp split: if_splits)
  moreover have s: "step example_ObjectId [1 \<mapsto> ?d] ?req 1 = Some ?d'"
    unfolding step.simps record_hit_finishing_example by simp
  ultimately have i': "cups_in_range ?d'"
    using inst by blast
  have "record_hit example_ObjectId (run example_ObjectId ?reqs) example_id
          (HitPayload_init A None (Some 4)) 101 =
        ([1 \<mapsto> ?d'],
         Inr \<lparr>ok = True, HitResponse.status = finished, HitResponse.winner = Some A\<rparr>)"
    unfolding run_create_hit_example by (rule record_hit_finishing_example)
  moreover have "[1 \<mapsto> ?d'] (1::nat) = Some ?d'"
    by simp
  ultimately have m: "cups_remaining_a ?d' \<le> cups_remaining_a ?d \<and>
      cups_remaining_b ?d' \<le> cups_remaining_b ?d"
    using inst r by blast
  from r i s i' m show ?thesis
    by (intro conjI) blast+
qed

subsection \<open>reset restores start values\<close>

text \<open>
  Claim C7. Resetting an existing match, whatever its status, writes both remaining-cup
  counts back to its \<open>cups_per_side\<close>, status \<open>ongoing\<close>, no winner and no events;
  the other fields of the match, its identifier and the other matches are as they were.
\<close>

theorem reset_restores_start_values:
  assumes "ObjectId match_id = Some oid" and "db oid = Some doc"
  shows "reset_match ObjectId db match_id =
           (db(oid \<mapsto> doc\<lparr>cups_remaining_a := cups_per_side doc,
                           cups_remaining_b := cups_per_side doc,
                           status := ongoing, winner := None, events := []\<rparr>),
            Inr True)"
  using assms by (simp add: reset_match_def to_obj_id_def find_one_def update_one_def Let_def)

theorem reset_restores_start_values_witness:
  "example_ObjectId example_id = Some 1 \<and>
   reset_match example_ObjectId
       [1 \<mapsto> (fresh_match 3)
          \<lparr>cups_remaining_b := 0, status := finished, winner := Some A,
           events := [\<lparr>team = A, shooter = None, cups = 5, timestamp = 100\<rparr>]\<rparr>,
        2 \<mapsto> (fresh_match 6)\<lparr>cups_remaining_a := 4\<rparr>]
       example_id =
     ([1 \<mapsto> fresh_match 3, 2 \<mapsto> (fresh_match 6)\<lparr>cups_remaining_a := 4\<rparr>], Inr True)"
proof -
  let ?d = "(fresh_match 3)
          \<lparr>cups_remaining_b := 0, status := finished, winner := Some A,
           events := [\<lparr>team = A, shooter = None, cups = 5, timestamp = 100\<rparr>]\<rparr>"
  let ?db = "[1 \<mapsto> ?d, 2 \<mapsto> (fresh_match 6)\<lparr>cups_remaining_a := 4\<rparr>]"
  have h1: "example_ObjectId example_id = Some 1"
    by (simp add: example_ObjectId_def)
  have h2: "?db (1::nat) = Some ?d"
    by simp
  have "(?db :: nat collection)(1 \<mapsto> ?d\<lparr>cups_remaining_a := cups_per_side ?d,
                      cups_remaining_b := cups_per_side ?d,
                      status := ongoing, winner := None, events := []\<rparr>) =
        [1 \<mapsto> fresh_match 3, 2 \<mapsto> (fresh_match 6)\<lparr>cups_remaining_a := 4\<rparr>]"
    by (rule ext) (simp add: fresh_match_def)
  with h1 reset_restores_start_values [where ObjectId = example_ObjectId
      and match_id = example_id and oid = 1 and db = ?db, OF h1 h2]
  show ?thesis
    by simp
qed

subsection \<open>create match cups per side\<close>

text \<open>
  Claim C8, amended. A \<open>cups_per_side\<close> within 1..20 is stored as given, in all three
  cup fields; one outside 1..20 is rejected with a validation error and no match is
  created; when the field is omitted the match is created with 10.
\<close>

theorem create_match_cups_per_side:
  "(1 \<le> c \<and> c \<le> 20 \<longrightarrow>
      create_match db new_id (CreateMatchRequest_init ta tb (Some c)) =
        (db(new_id \<mapsto> \<lparr>team_a = ta, team_b = tb, cups_per_side = c,
                          cups_remaining_a = c, cups_remaining_b = c,
                          status = ongoing, winner = None, events = []\<rparr>), Inr new_id)) \<and>
   (c < 1 \<or> 20 < c \<longrightarrow>
      create_match db new_id (CreateMatchRequest_init ta tb (Some c)) =
        (db, Inl ValidationError)) \<and>
   create_match db new_id (CreateMatchRequest_init ta tb None) =
     (db(new_id \<mapsto> \<lparr>team_a = ta, team_b = tb, cups_per_side = 10,
                       cups_remaining_a = 10, cups_remaining_b = 10,
                       status = ongoing, winner = None, events = []\<rparr>), Inr new_id)"
  by (auto simp: create_match_def CreateMatchRequest_init_def Match_init_def
        create_document_def)

theorem create_match_cups_per_side_witness:
  "(1::int) \<le> 5 \<and> (5::int) \<le> 20 \<and> (20::int) < 25 \<and>
   create_match Map.empty (1::nat) (CreateMatchRequest_init ''Foxes'' ''Owls'' (Some 5)) =
     ([1 \<mapsto> fresh_match 5], Inr 1) \<and>
   create_match Map.empty (1::nat) (CreateMatchRequest_init ''Foxes'' ''Owls'' (Some 25)) =
     (Map.empty, Inl ValidationError) \<and>
   create_match Map.empty (1::nat) (CreateMatchRequest_init ''Foxes'' ''Owls'' None) =
     ([1 \<mapsto> fresh_match 10], Inr 1)"
  using create_match_cups_per_side [of 5 Map.empty "1::nat" "''Foxes''" "''Owls''"]
    create_match_cups_per_side [of 25 Map.empty "1::nat" "''Foxes''" "''Owls''"]
  by (simp add: fresh_match_def)

text \<open>
  Claim C8 as stated fails: a \<open>cups_per_side\<close> of 25, or of 0, is not replaced by the
  nearest bound; the \<open>Match\<close> model rejects it and no match is stored.
\<close>

theorem create_match_cups_per_side_counterexample:
  "create_match Map.empty (1::nat) (CreateMatchRequest_init ''Foxes'' ''Owls'' (Some 25)) =
     (Map.empty, Inl ValidationError) \<and>
   create_match Map.empty (1::nat) (CreateMatchRequest_init ''Foxes'' ''Owls'' (Some 0)) =
     (Map.empty, Inl ValidationError)"
  by (simp add: create_match_def CreateMatchRequest_init_def Match_init_def)

subsection \<open>hit cups out of range rejected\<close>

text \<open>
  Claim C9. The hit payload accepts any integer as \<open>cups\<close>. On an existing ongoing
  match, a hit whose \<open>cups\<close> is below 1 or above 10 fails with the validation error of
  \<open>HitEvent\<close>, and the collection is left as it was.
\<close>

theorem hit_cups_out_of_range_rejected:
  assumes "ObjectId match_id = Some oid" and "db oid = Some doc" and "status doc = ongoing"
    and "c < 1 \<or> 10 < c"
  shows "HitPayload.cups (HitPayload_init t s (Some c)) = c \<and>
         record_hit ObjectId db match_id (HitPayload_init t s (Some c)) now =
           (db, Inl ValidationError)"
  using assms
  by (auto simp: record_hit_def to_obj_id_def find_one_def HitPayload_init_def
        HitEvent_init_def Let_def)

theorem hit_cups_out_of_range_rejected_witness:
  "example_ObjectId example_id = Some 1 \<and>
   status (fresh_match 10) = ongoing \<and>
   ((0::int) < 1 \<or> (10::int) < 0) \<and>
   HitPayload.cups (HitPayload_init A None (Some 0)) = 0 \<and>
   record_hit example_ObjectId [1 \<mapsto> fresh_match 10] example_id
       (HitPayload_init A None (Some 0)) 100 =
     ([1 \<mapsto> fresh_match 10], Inl ValidationError)"
proof -
  have h1: "example_ObjectId example_id = Some 1"
    by (simp add: example_ObjectId_def)
  have h2: "[1 \<mapsto> fresh_match 10] (1::nat) = Some (fresh_match 10)"
    by simp
  have h3: "status (fresh_match 10) = ongoing"
    by (simp add: fresh_match_def)
  have h4: "(0::int) < 1 \<or> (10::int) < 0"
    by simp
  from h1 h3 h4 hit_cups_out_of_range_rejected [where ObjectId = example_ObjectId
      and match_id = example_id and oid = 1 and db = "[1 \<mapsto> fresh_match 10]"
      and t = A and s = None and now = 100, OF h1 h2 h3 h4]
  show ?thesis
    by (intro conjI) blast+
qed

subsection \<open>ongoing match has cups left\<close>

text \<open>
  Claim C10. In every match of a collection reached by any sequence of requests, an
  ongoing match has at least one cup left on each side.
\<close>

theorem ongoing_match_has_cups_left:
  "\<forall>oid doc. run ObjectId reqs oid = Some doc \<and> status doc = ongoing \<longrightarrow>
     1 \<le> cups_remaining_a doc \<and> 1 \<le> cups_remaining_b doc"
proof (intro allI impI)
  fix oid doc
  assume a: "run ObjectId reqs oid = Some doc \<and> status doc = ongoing"
  then have "ongoing_has_cups doc"
    by (blast intro: run_ongoing_has_cups)
  with a show "1 \<le> cups_remaining_a doc \<and> 1 \<le> cups_remaining_b doc"
    by (simp add: ongoing_has_cups_def)
qed

theorem ongoing_match_has_cups_left_witness:
  "run example_ObjectId
     [Create 1 (CreateMatchRequest_init ''Foxes'' ''Owls'' (Some 3)),
      Hit example_id (HitPayload_init A None (Some 2)) 100] 1 =
     Some ((fresh_match 3)
      \<lparr>cups_remaining_b := 1,
       events := [\<lparr>team = A, shooter = None, cups = 2, timestamp = 100\<rparr>]\<rparr>) \<and>
   status ((fresh_match 3)
      \<lparr>cups_remaining_b := 1,
       events := [\<lparr>team = A, shooter = None, cups = 2, timestamp = 100\<rparr>]\<rparr>) = ongoing \<and>
   1 \<le> cups_remaining_a ((fresh_match 3)
      \<lparr>cups_remaining_b := 1,
       events := [\<lparr>team = A, shooter = None, cups = 2, timestamp = 100\<rparr>]\<rparr>) \<and>
   1 \<le> cups_remaining_b ((fresh_match 3)
      \<lparr>cups_remaining_b := 1,
       events := [\<lparr>team = A, shooter = None, cups = 2, timestamp = 100\<rparr>]\<rparr>)"
proof -
  let ?reqs = "[Create 1 (CreateMatchRequest_init ''Foxes'' ''Owls'' (Some 3)),
      Hit example_id (HitPayload_init A None (Some 2)) 100]"
  let ?d = "(fresh_match 3)
      \<lparr>cups_remaining_b := 1,
       events := [\<lparr>team = A, shooter = None, cups = 2, timestamp = 100\<rparr>]\<rparr>"
  have r: "run example_ObjectId ?reqs 1 = Some ?d"
    unfolding run_create_hit_example by simp
  have o: "status ?d = ongoing"
    by (simp add: fresh_match_def)
  from r o ongoing_match_has_cups_left [of example_ObjectId ?reqs]
  have "1 \<le> cups_remaining_a ?d \<and> 1 \<le> cups_remaining_b ?d"
    by blast
  with r o show ?thesis
    by (intro conjI) blast+
qed

end
